theory Spec2Isabelle
  imports Main "HOL-Library.AList" "HOL-Library.Sublist"
begin

section \<open>Values and errors\<close>

text \<open>
  A configuration is a nested Python dictionary as \<open>json.load\<close> and \<open>tomlkit.load\<close>
  produce it. Dictionaries keep their insertion order, so they are association lists
  with \<open>map_of\<close> as lookup and \<open>AList.update\<close> as item assignment (the value is replaced
  in place when the key exists, the pair is appended otherwise). Numbers are integers;
  strings are ASCII.
\<close>

datatype json =
    JNull
  | JBool bool
  | JInt int
  | JStr string
  | JList "json list"
  | JObj "(string \<times> json) list"

type_synonym dict = "(string \<times> json) list"

text \<open>The exceptions that the modelled code lets escape.\<close>

datatype error =
    MS2RescoreConfigurationError string
  | FileNotFoundError string
  | ValueError string
  | KeyError string
  | TypeError
  | AttributeError
  | NotImplementedError
  | OSError string

text \<open>Python truthiness, as \<open>not x\<close> and \<open>if x\<close> use it.\<close>

fun truthy :: "json \<Rightarrow> bool" where
  "truthy JNull = False"
| "truthy (JBool b) = b"
| "truthy (JInt i) = (i \<noteq> 0)"
| "truthy (JStr s) = (s \<noteq> [])"
| "truthy (JList xs) = (xs \<noteq> [])"
| "truthy (JObj m) = (m \<noteq> [])"

text \<open>\<open>x[k]\<close> with a string key: only a dictionary accepts it, and a missing key raises.\<close>

fun getitem :: "json \<Rightarrow> string \<Rightarrow> error + json" where
  "getitem (JObj m) k = (case map_of m k of None \<Rightarrow> Inl (KeyError k) | Some v \<Rightarrow> Inr v)"
| "getitem _ k = Inl TypeError"

text \<open>\<open>config[s][k]\<close> and \<open>config[s][k] = v\<close> on the top-level dictionary.\<close>

definition get2 :: "dict \<Rightarrow> string \<Rightarrow> string \<Rightarrow> error + json" where
  "get2 config s k =
     (case map_of config s of
        None \<Rightarrow> Inl (KeyError s)
      | Some sect \<Rightarrow> getitem sect k)"

definition set2 :: "dict \<Rightarrow> string \<Rightarrow> string \<Rightarrow> json \<Rightarrow> error + dict" where
  "set2 config s k v =
     (case map_of config s of
        None \<Rightarrow> Inl (KeyError s)
      | Some (JObj m) \<Rightarrow> Inr (AList.update s (JObj (AList.update k v m)) config)
      | Some _ \<Rightarrow> Inl TypeError)"

text \<open>\<open>Path(x)\<close> accepts a string; any other JSON value raises \<open>TypeError\<close>.\<close>

fun as_path :: "json \<Rightarrow> error + string" where
  "as_path (JStr s) = Inr s"
| "as_path _ = Inl TypeError"

section \<open>The host\<close>

text \<open>
  What the code asks of the interpreter, the operating system and the packaged data
  files is a parameter: the CPU count, \<open>pathlib\<close>'s string functions, the file-system
  queries on a state \<open>'fs\<close>, \<open>mkdir(parents=True, exist_ok=True)\<close> as the only operation
  that changes that state, the two document readers, and the packaged
  \<open>config_default.json\<close> and \<open>config_schema.json\<close>. The schema check answers with the
  offending key, or \<open>None\<close> for a valid configuration.
\<close>

record 'fs host =
  cpu_count :: "int option"
  path_str :: "string \<Rightarrow> string"
  path_parent :: "string \<Rightarrow> string"
  path_suffix :: "string \<Rightarrow> string"
  is_file :: "'fs \<Rightarrow> string \<Rightarrow> bool"
  path_exists :: "'fs \<Rightarrow> string \<Rightarrow> bool"
  is_dir :: "'fs \<Rightarrow> string \<Rightarrow> bool"
  mkdir_parents :: "'fs \<Rightarrow> string \<Rightarrow> error option \<times> 'fs"
  load_json :: "'fs \<Rightarrow> string \<Rightarrow> error + dict"
  load_toml :: "'fs \<Rightarrow> string \<Rightarrow> error + dict"
  config_default :: dict
  config_schema :: "dict \<Rightarrow> string option"

section \<open>config_parser.py\<close>

subsection \<open>Function \<open>_validate_processes\<close>\<close>

text \<open>
  \<open>(p == -1) or (p > n_available)\<close>: equality with \<open>-1\<close> never raises; the ordering
  comparison raises \<open>TypeError\<close> for a value that is not a number. A Python \<open>bool\<close> is
  an \<open>int\<close>.
\<close>

fun processes_exceed :: "json \<Rightarrow> int \<Rightarrow> error + bool" where
  "processes_exceed (JInt p) n = Inr (p = - 1 \<or> p > n)"
| "processes_exceed (JBool b) n = Inr ((if b then 1 else 0) > n)"
| "processes_exceed _ n = Inl TypeError"

definition validate_processes :: "'fs host \<Rightarrow> dict \<Rightarrow> error + dict" where
  "validate_processes env config =
     (case cpu_count env of
        None \<Rightarrow> Inl NotImplementedError
      | Some n_available \<Rightarrow>
          (case get2 config ''ms2rescore'' ''processes'' of
             Inl e \<Rightarrow> Inl e
           | Inr p \<Rightarrow>
               (case processes_exceed p n_available of
                  Inl e \<Rightarrow> Inl e
                | Inr True \<Rightarrow> set2 config ''ms2rescore'' ''processes'' (JInt n_available)
                | Inr False \<Rightarrow> Inr config)))"

subsection \<open>Function \<open>_validate_filenames\<close>\<close>

text \<open>
  A \<open>Path\<close> object is represented by its string form: \<open>Path(p)\<close> is \<open>path_str env p\<close>.
  The three checks of the source are kept in its order; only \<open>mkdir\<close> changes the
  file system, and what it leaves behind is returned also when it raises.
\<close>

definition validate_spectrum_path :: "'fs host \<Rightarrow> 'fs \<Rightarrow> dict \<Rightarrow> error + dict" where
  "validate_spectrum_path env fs config =
     (case get2 config ''ms2rescore'' ''spectrum_path'' of
        Inl e \<Rightarrow> Inl e
      | Inr sp \<Rightarrow>
          if truthy sp then
            (case as_path sp of
               Inl e \<Rightarrow> Inl e
             | Inr p \<Rightarrow>
                 let spectrum_path = path_str env p in
                 if \<not> path_exists env fs spectrum_path then Inl (FileNotFoundError spectrum_path)
                 else set2 config ''ms2rescore'' ''spectrum_path'' (JStr spectrum_path))
          else Inr config)"

definition validate_output_path ::
  "'fs host \<Rightarrow> 'fs \<Rightarrow> string \<Rightarrow> dict \<Rightarrow> (error + dict) \<times> 'fs" where
  "validate_output_path env fs id_file config =
     (case get2 config ''ms2rescore'' ''output_path'' of
        Inl e \<Rightarrow> (Inl e, fs)
      | Inr out \<Rightarrow>
          if truthy out then
            (case as_path out of
               Inl e \<Rightarrow> (Inl e, fs)
             | Inr p \<Rightarrow>
                 let output_path = path_str env p in
                 if \<not> is_dir env fs output_path then
                   (case mkdir_parents env fs output_path of
                      (Some e, fs') \<Rightarrow> (Inl e, fs')
                    | (None, fs') \<Rightarrow>
                        (set2 config ''ms2rescore'' ''output_path'' (JStr output_path), fs'))
                 else (set2 config ''ms2rescore'' ''output_path'' (JStr output_path), fs))
          else
            (set2 config ''ms2rescore'' ''output_path'' (JStr (path_parent env id_file)), fs))"

definition validate_filenames :: "'fs host \<Rightarrow> 'fs \<Rightarrow> dict \<Rightarrow> (error + dict) \<times> 'fs" where
  "validate_filenames env fs config =
     (case get2 config ''ms2rescore'' ''psm_file'' of
        Inl e \<Rightarrow> (Inl e, fs)
      | Inr psm \<Rightarrow>
          if \<not> truthy psm then
            (Inl (MS2RescoreConfigurationError ''`psm_file` should be provided.''), fs)
          else
            (case as_path psm of
               Inl e \<Rightarrow> (Inl e, fs)
             | Inr p \<Rightarrow>
                 let id_file = path_str env p in
                 if \<not> is_file env fs id_file then (Inl (FileNotFoundError id_file), fs)
                 else
                   (case set2 config ''ms2rescore'' ''psm_file'' (JStr id_file) of
                      Inl e \<Rightarrow> (Inl e, fs)
                    | Inr config1 \<Rightarrow>
                        (case validate_spectrum_path env fs config1 of
                           Inl e \<Rightarrow> (Inl e, fs)
                         | Inr config2 \<Rightarrow> validate_output_path env fs id_file config2))))"

subsection \<open>Lowercasing of section keys\<close>

text \<open>\<open>str.lower\<close> on ASCII: the letters \<open>A\<close> to \<open>Z\<close> (codes 65 to 90) move up by 32.\<close>

definition is_upper :: "char \<Rightarrow> bool" where
  "is_upper c = (65 \<le> (of_char c :: nat) \<and> (of_char c :: nat) \<le> 90)"

definition lower_char :: "char \<Rightarrow> char" where
  "lower_char c = (if is_upper c then char_of ((of_char c :: nat) + 32) else c)"

definition lower :: "string \<Rightarrow> string" where
  "lower s = map lower_char s"

text \<open>
  The comprehension \<open>{k.lower(): v for k, v in d.items()}\<close> assigns the pairs in order
  into a fresh dictionary: a key met again keeps its position and takes the new value.
\<close>

definition lower_keys :: "dict \<Rightarrow> dict" where
  "lower_keys d = fold (\<lambda>(k, v) acc. AList.update (lower k) v acc) d []"

text \<open>\<open>.items()\<close> exists on a dictionary only.\<close>

definition lowercase_section :: "dict \<Rightarrow> string \<Rightarrow> error + dict" where
  "lowercase_section config k =
     (case get2 config ''ms2rescore'' k of
        Inl e \<Rightarrow> Inl e
      | Inr (JObj m) \<Rightarrow> set2 config ''ms2rescore'' k (JObj (lower_keys m))
      | Inr _ \<Rightarrow> Inl AttributeError)"

subsection \<open>The cascade\<close>

text \<open>
  Modelled from the spec: \<open>CascadeConfig\<close> (imported from \<open>cascade_config\<close>) is not under
  src/; the source shows only how it is built (\<open>none_overrides_value=False\<close>,
  \<open>max_recursion_depth=1\<close>, the packaged defaults added first) and which of its methods
  are called. The merge follows section 4.2 of the specification: the accumulated
  mapping starts as the first source added, every later source is merged into it key
  by key, a later value overrides an earlier one except that a null does not override
  a concrete earlier value, two mappings under the same key are merged recursively
  while the depth allows and the later one replaces the earlier one beyond it, and the
  schema is applied to the merged mapping.
\<close>

datatype config_source =
    DictSource dict
  | JSONSource string
  | NamespaceSource dict string

record cascade_config =
  none_overrides_value :: bool
  max_recursion_depth :: nat
  sources :: "config_source list"

text \<open>
  Modelled from the spec: the \<open>add_*\<close> methods of \<open>CascadeConfig\<close>, which is not under
  src/; each appends one source, of lower precedence than every source added after it.
\<close>

definition add_dict :: "cascade_config \<Rightarrow> dict \<Rightarrow> cascade_config" where
  "add_dict cc d = cc\<lparr>sources := sources cc @ [DictSource d]\<rparr>"

definition add_json :: "cascade_config \<Rightarrow> string \<Rightarrow> cascade_config" where
  "add_json cc p = cc\<lparr>sources := sources cc @ [JSONSource p]\<rparr>"

definition add_namespace :: "cascade_config \<Rightarrow> dict \<Rightarrow> string \<Rightarrow> cascade_config" where
  "add_namespace cc ns subkey = cc\<lparr>sources := sources cc @ [NamespaceSource ns subkey]\<rparr>"

text \<open>
  Modelled from the spec: a source adapted to a plain mapping (section 4.1); the
  attributes of an argument bundle are placed under its one subsection key.
\<close>

fun load_source :: "'fs host \<Rightarrow> 'fs \<Rightarrow> config_source \<Rightarrow> error + dict" where
  "load_source env fs (DictSource d) = Inr d"
| "load_source env fs (JSONSource p) = load_json env fs p"
| "load_source env fs (NamespaceSource ns subkey) = Inr [(subkey, JObj ns)]"

fun load_all :: "'fs host \<Rightarrow> 'fs \<Rightarrow> config_source list \<Rightarrow> error + dict list" where
  "load_all env fs [] = Inr []"
| "load_all env fs (s # ss) =
     (case load_source env fs s of
        Inl e \<Rightarrow> Inl e
      | Inr d \<Rightarrow> (case load_all env fs ss of Inl e \<Rightarrow> Inl e | Inr ds \<Rightarrow> Inr (d # ds)))"

text \<open>
  Modelled from the spec: the merge of one later mapping into the accumulated one.
  \<open>depth\<close> is the number of levels below the current one that are still merged field
  by field.
\<close>

fun cascade_merge :: "bool \<Rightarrow> nat \<Rightarrow> dict \<Rightarrow> dict \<Rightarrow> dict" where
  "cascade_merge nov depth acc [] = acc"
| "cascade_merge nov depth acc ((k, v) # later) =
     cascade_merge nov depth
       (case v of
          JNull \<Rightarrow>
            (case map_of acc k of
               None \<Rightarrow> AList.update k JNull acc
             | Some old \<Rightarrow> if nov \<or> old = JNull then AList.update k JNull acc else acc)
        | JObj m \<Rightarrow>
            (case (depth, map_of acc k) of
               (Suc d, Some (JObj am)) \<Rightarrow> AList.update k (JObj (cascade_merge nov d am m)) acc
             | _ \<Rightarrow> AList.update k v acc)
        | _ \<Rightarrow> AList.update k v acc)
       later"

text \<open>
  Modelled from the spec: the cascade over all sources of \<open>CascadeConfig\<close>, starting
  from the first one added (the compiled-in defaults) and merging each later one in.
\<close>

definition merge_all :: "bool \<Rightarrow> nat \<Rightarrow> dict list \<Rightarrow> dict" where
  "merge_all nov depth docs =
     (case docs of
        [] \<Rightarrow> []
      | d # later \<Rightarrow> fold (\<lambda>src acc. cascade_merge nov depth acc src) later d)"

text \<open>
  Modelled from the spec: \<open>CascadeConfig.parse\<close> reads the sources, merges them in the
  order they were added and applies the schema; a schema failure is a configuration
  error naming the offending key.
\<close>

definition cascade_parse :: "'fs host \<Rightarrow> 'fs \<Rightarrow> cascade_config \<Rightarrow> error + dict" where
  "cascade_parse env fs cc =
     (case load_all env fs (sources cc) of
        Inl e \<Rightarrow> Inl e
      | Inr docs \<Rightarrow>
          let config = merge_all (none_overrides_value cc) (max_recursion_depth cc) docs
          in (case config_schema env config of
                Some key \<Rightarrow> Inl (MS2RescoreConfigurationError key)
              | None \<Rightarrow> Inr config))"

subsection \<open>Function \<open>parse_configurations\<close>\<close>

text \<open>The values a caller can pass, told apart by the \<open>isinstance\<close> tests of the source.\<close>

datatype pyval =
    PDict dict
  | PStr string
  | PPath string
  | PNamespace dict
  | PList "pyval list"
  | POther

definition unknown_extension :: string where
  "unknown_extension =
     ''Unknown file extension for configuration file. Should be `json` or `toml`.''"

definition unknown_shape :: string where
  "unknown_shape =
     ''Configuration should be a dictionary, argparse Namespace, or path to a configuration file.''"

definition add_path :: "'fs host \<Rightarrow> 'fs \<Rightarrow> cascade_config \<Rightarrow> string \<Rightarrow> error + cascade_config" where
  "add_path env fs cascade_conf p =
     (if lower (path_suffix env p) = ''.json'' then Inr (add_json cascade_conf p)
      else if lower (path_suffix env p) = ''.toml'' then
        (case load_toml env fs p of
           Inl e \<Rightarrow> Inl e
         | Inr d \<Rightarrow> Inr (add_dict cascade_conf d))
      else Inl (MS2RescoreConfigurationError unknown_extension))"

text \<open>The \<open>for\<close> loop over the configurations: the first failure leaves the loop.\<close>

fun add_configurations ::
  "'fs host \<Rightarrow> 'fs \<Rightarrow> cascade_config \<Rightarrow> pyval list \<Rightarrow> error + cascade_config" where
  "add_configurations env fs cascade_conf [] = Inr cascade_conf"
| "add_configurations env fs cascade_conf (config # rest) =
     (case
        (case config of
           PDict d \<Rightarrow> Inr (add_dict cascade_conf d)
         | PStr p \<Rightarrow> add_path env fs cascade_conf p
         | PPath p \<Rightarrow> add_path env fs cascade_conf p
         | PNamespace ns \<Rightarrow> Inr (add_namespace cascade_conf ns ''ms2rescore'')
         | _ \<Rightarrow> Inl (ValueError unknown_shape))
      of
        Inl e \<Rightarrow> Inl e
      | Inr cascade_conf' \<Rightarrow> add_configurations env fs cascade_conf' rest)"

text \<open>Lines 72 to 108: the list of sources, the cascade built from them, and its result.\<close>

fun isinstance_list :: "pyval \<Rightarrow> bool" where
  "isinstance_list (PList cs) = True"
| "isinstance_list _ = False"

fun as_list :: "pyval \<Rightarrow> pyval list" where
  "as_list (PList cs) = cs"
| "as_list c = [c]"

definition new_cascade :: "'fs host \<Rightarrow> cascade_config" where
  "new_cascade env =
     add_dict \<lparr>none_overrides_value = False, max_recursion_depth = 1, sources = []\<rparr>
       (config_default env)"

definition resolve_cascade :: "'fs host \<Rightarrow> 'fs \<Rightarrow> pyval \<Rightarrow> error + dict" where
  "resolve_cascade env fs configurations =
     (case add_configurations env fs (new_cascade env) (as_list configurations) of
        Inl e \<Rightarrow> Inl e
      | Inr cascade_conf \<Rightarrow> cascade_parse env fs cascade_conf)"

text \<open>Lines 110 to 122: the validation of the parsed configuration.\<close>

definition post_validate :: "'fs host \<Rightarrow> 'fs \<Rightarrow> dict \<Rightarrow> (error + dict) \<times> 'fs" where
  "post_validate env fs config =
     (case validate_filenames env fs config of
        (Inl e, fs') \<Rightarrow> (Inl e, fs')
      | (Inr config1, fs') \<Rightarrow>
          (case validate_processes env config1 of
             Inl e \<Rightarrow> (Inl e, fs')
           | Inr config2 \<Rightarrow>
               (case lowercase_section config2 ''feature_generators'' of
                  Inl e \<Rightarrow> (Inl e, fs')
                | Inr config3 \<Rightarrow> (lowercase_section config3 ''rescoring_engine'', fs'))))"

definition parse_configurations :: "'fs host \<Rightarrow> 'fs \<Rightarrow> pyval \<Rightarrow> (error + dict) \<times> 'fs" where
  "parse_configurations env fs configurations =
     (case resolve_cascade env fs configurations of
        Inl e \<Rightarrow> (Inl e, fs)
      | Inr config \<Rightarrow> post_validate env fs config)"

subsection \<open>Predicates on inputs and errors\<close>

text \<open>The shapes that none of the \<open>isinstance\<close> tests of the loop accepts.\<close>

fun is_unsupported :: "pyval \<Rightarrow> bool" where
  "is_unsupported (PList cs) = True"
| "is_unsupported POther = True"
| "is_unsupported _ = False"

fun is_configuration_error :: "error \<Rightarrow> bool" where
  "is_configuration_error (MS2RescoreConfigurationError msg) = True"
| "is_configuration_error _ = False"

text \<open>
  Two strings are equal up to letter case when they have the same length and, position
  by position, the same character or an upper-case letter and its lower-case form.
\<close>

definition same_letter :: "char \<Rightarrow> char \<Rightarrow> bool" where
  "same_letter x y =
     (x = y
      \<or> (is_upper x \<and> (of_char y :: nat) = of_char x + 32)
      \<or> (is_upper y \<and> (of_char x :: nat) = of_char y + 32))"

definition eq_ignore_case :: "string \<Rightarrow> string \<Rightarrow> bool" where
  "eq_ignore_case a b = list_all2 same_letter a b"

text \<open>
  Modelled from the spec: \<open>config_schema.json\<close> is not under src/. The spec gives
  \<open>processes\<close> as an integer that is either the "use all" sentinel, \<open>-1\<close> in the source,
  or a number of processes to use, a positive count; this is the range that a
  schema-valid configuration has.
\<close>

fun processes_in_range :: "json \<Rightarrow> bool" where
  "processes_in_range (JInt p) = (p = - 1 \<or> 1 \<le> p)"
| "processes_in_range _ = False"


fun is_mapping :: "json \<Rightarrow> bool" where
  "is_mapping (JObj m) = True"
| "is_mapping _ = False"

text \<open>
  A later source is silent on a key when it does not have the key or has it with a
  null value; it is silent on a key of a section when it does not have the section, has
  a null section, or has a section that is silent on the key.
\<close>

definition silent :: "dict \<Rightarrow> string \<Rightarrow> bool" where
  "silent later k = list_all (\<lambda>(k', v). k' = k \<longrightarrow> v = JNull) later"

definition silent_in :: "dict \<Rightarrow> string \<Rightarrow> string \<Rightarrow> bool" where
  "silent_in later s k =
     list_all (\<lambda>(s', x). s' = s \<longrightarrow> (case x of JNull \<Rightarrow> True | JObj m \<Rightarrow> silent m k | _ \<Rightarrow> False))
       later"

section \<open>The orchestrator: \<open>main\<close> of \<open>__init__.py\<close>\<close>

text \<open>
  \<open>main\<close> runs on the configuration that \<open>parse_config\<close> returned. The shell is a
  parameter: \<open>getstatus cmd\<close> is \<open>subprocess.getstatusoutput(cmd)[0]\<close>. The run is
  observed through the list of the commands probed and the stages entered, in order, and
  ends with the exit code passed to \<open>exit\<close>, with an exception, or normally. The stages
  after the choice of the pipeline (lines 129 to 195) are a parameter, given the name of
  the converter that line 118 to 124 select.
\<close>

datatype event = Probe string | Stage string

datatype outcome = SystemExit int | Raised error | Completed

record shell =
  getstatus :: "string \<Rightarrow> int"
  run_stages :: "string \<Rightarrow> dict \<Rightarrow> outcome \<times> event list"

text \<open>\<open>config['general']['pipeline'].lower()\<close>: only a string has \<open>lower\<close>.\<close>

definition select_pipeline :: "dict \<Rightarrow> error + string option" where
  "select_pipeline config =
     (case get2 config ''general'' ''pipeline'' of
        Inl e \<Rightarrow> Inl e
      | Inr (JStr s) \<Rightarrow>
          if lower s = ''maxquant'' then Inr (Some ''maxquant_pipeline'')
          else if lower s \<in> set [''msgfplus'', ''msgf+'', ''ms-gf+''] then Inr (Some ''msgf_pipeline'')
          else if lower s \<in> set [''tandem'', ''xtandem'', ''x!tandem''] then Inr (Some ''tandem_pipeline'')
          else Inr None
      | Inr _ \<Rightarrow> Inl AttributeError)"

definition run_pipeline :: "shell \<Rightarrow> dict \<Rightarrow> event list \<Rightarrow> outcome \<times> event list" where
  "run_pipeline sh config trace =
     (case select_pipeline config of
        Inl e \<Rightarrow> (Raised e, trace)
      | Inr None \<Rightarrow> (SystemExit 1, trace)
      | Inr (Some converter) \<Rightarrow>
          (case run_stages sh converter config of
             (res, later) \<Rightarrow> (res, trace @ Stage converter # later)))"

definition check_ms2pip :: "shell \<Rightarrow> dict \<Rightarrow> event list \<Rightarrow> outcome \<times> event list" where
  "check_ms2pip sh config trace =
     (if getstatus sh ''ms2pip -h'' \<noteq> 0 then (SystemExit 0, trace @ [Probe ''ms2pip -h''])
      else run_pipeline sh config (trace @ [Probe ''ms2pip -h'']))"

definition main :: "shell \<Rightarrow> dict \<Rightarrow> outcome \<times> event list" where
  "main sh config =
     (case get2 config ''general'' ''run_percolator'' of
        Inl e \<Rightarrow> (Raised e, [])
      | Inr run_percolator \<Rightarrow>
          if truthy run_percolator then
            (if getstatus sh ''percolator -h'' \<noteq> 0 then (SystemExit 1, [Probe ''percolator -h''])
             else check_ms2pip sh config [Probe ''percolator -h''])
          else check_ms2pip sh config [])"

section \<open>A small host\<close>

text \<open>
  A host to run the definitions on: a file system that is a list of files and a list
  of directories, paths already in normal form, four CPUs, one JSON and one TOML
  document on disk, and defaults that give \<open>psm_file\<close>, a key that the spec makes
  required, no value.
\<close>

type_synonym toy_fs = "string list \<times> string list"

definition posix_name :: "string \<Rightarrow> string" where
  "posix_name p = rev (takeWhile (\<lambda>c. c \<noteq> CHR ''/'') (rev p))"

definition posix_suffix :: "string \<Rightarrow> string" where
  "posix_suffix p =
     (let name = posix_name p; ext = rev (takeWhile (\<lambda>c. c \<noteq> CHR ''.'') (rev name))
      in if CHR ''.'' \<in> set name \<and> ext \<noteq> [] \<and> Suc (length ext) < length name
         then CHR ''.'' # ext else [])"

definition posix_parent :: "string \<Rightarrow> string" where
  "posix_parent p =
     (let d = rev (drop 1 (dropWhile (\<lambda>c. c \<noteq> CHR ''/'') (rev p)))
      in if d = [] then ''.'' else d)"

definition toy_default :: dict where
  "toy_default =
     [(''ms2rescore'', JObj
        [(''psm_file'', JNull),
         (''spectrum_path'', JNull),
         (''output_path'', JNull),
         (''processes'', JInt (- 1)),
         (''feature_generators'', JObj [(''basic'', JObj [])]),
         (''rescoring_engine'', JObj [(''mokapot'', JObj [])])])]"

text \<open>
  The schema of the small host follows the configuration shape of the spec: the one
  top-level section is a mapping with exactly the known keys, the three paths are
  strings or null, \<open>processes\<close> is in its range, and the two sections of pluggable
  components map names to mappings of options. The answer is the first offending key.
\<close>

fun is_path_or_null :: "json \<Rightarrow> bool" where
  "is_path_or_null JNull = True"
| "is_path_or_null (JStr p) = True"
| "is_path_or_null _ = False"

fun is_plugin_section :: "json \<Rightarrow> bool" where
  "is_plugin_section (JObj m) = list_all (\<lambda>(name, options). is_mapping options) m"
| "is_plugin_section _ = False"

definition toy_fields :: "(string \<times> (json \<Rightarrow> bool)) list" where
  "toy_fields =
     [(''psm_file'', is_path_or_null),
      (''spectrum_path'', is_path_or_null),
      (''output_path'', is_path_or_null),
      (''processes'', processes_in_range),
      (''feature_generators'', is_plugin_section),
      (''rescoring_engine'', is_plugin_section)]"

definition toy_schema :: "dict \<Rightarrow> string option" where
  "toy_schema config =
     (case filter (\<lambda>k. k \<noteq> ''ms2rescore'') (map fst config) of
        k # _ \<Rightarrow> Some k
      | [] \<Rightarrow>
          (case map_of config ''ms2rescore'' of
             Some (JObj m) \<Rightarrow>
               (case filter (\<lambda>k. k \<notin> set (map fst toy_fields)) (map fst m) of
                  k # _ \<Rightarrow> Some k
                | [] \<Rightarrow>
                    (case filter (\<lambda>(k, ok). case map_of m k of None \<Rightarrow> True | Some v \<Rightarrow> \<not> ok v)
                            toy_fields of
                       [] \<Rightarrow> None
                     | (k, ok) # _ \<Rightarrow> Some k))
           | _ \<Rightarrow> Some ''ms2rescore''))"

definition toy_host :: "toy_fs host" where
  "toy_host =
     \<lparr>cpu_count = Some 4,
      path_str = (\<lambda>p. p),
      path_parent = posix_parent,
      path_suffix = posix_suffix,
      is_file = (\<lambda>fs p. p \<in> set (fst fs)),
      path_exists = (\<lambda>fs p. p \<in> set (fst fs) \<or> p \<in> set (snd fs)),
      is_dir = (\<lambda>fs p. p \<in> set (snd fs)),
      mkdir_parents = (\<lambda>fs p. (None, (fst fs, p # snd fs))),
      load_json = (\<lambda>fs p.
        if p \<in> set (fst fs) then Inr [(''ms2rescore'', JObj [(''psm_file'', JStr ''data/psms.tsv'')])]
        else Inl (FileNotFoundError p)),
      load_toml = (\<lambda>fs p.
        if p \<in> set (fst fs) then Inr [(''ms2rescore'', JObj [(''processes'', JInt 2)])]
        else Inl (FileNotFoundError p)),
      config_default = toy_default,
      config_schema = toy_schema\<rparr>"

definition toy_disk :: toy_fs where
  "toy_disk = ([''data/psms.tsv'', ''conf.JSON'', ''conf.Toml''], [''data''])"


definition missing_psm :: pyval where
  "missing_psm =
     PDict [(''ms2rescore'', JObj [(''psm_file'', JStr ''data/none.tsv''), (''output_path'', JStr ''out'')])]"

definition two_casings :: pyval where
  "two_casings =
     PDict [(''ms2rescore'', JObj
       [(''psm_file'', JStr ''data/psms.tsv''),
        (''feature_generators'', JObj
          [(''MS2PIP'', JObj [(''model'', JStr ''HCD'')]),
           (''ms2pip'', JObj [(''model'', JStr ''CID'')])])])]"

definition upper_casing :: pyval where
  "upper_casing =
     PDict [(''ms2rescore'', JObj
       [(''psm_file'', JStr ''data/psms.tsv''),
        (''feature_generators'', JObj [(''MS2PIP'', JObj [(''model'', JStr ''HCD'')])])])]"

definition no_ms2pip :: shell where
  "no_ms2pip =
     \<lparr>getstatus = (\<lambda>cmd. if cmd = ''ms2pip -h'' then 127 else 0),
      run_stages = (\<lambda>converter config. (Completed, [Stage ''ms2pip'']))\<rparr>"

text \<open>
  A host whose schema accepts every configuration, a file-based source, the argument
  bundle of a command line that sets the output path only, and a source that nulls a
  top-level key.
\<close>

definition open_host :: "toy_fs host" where
  "open_host = toy_host\<lparr>config_schema := (\<lambda>config. None)\<rparr>"

definition file_values :: dict where
  "file_values =
     [(''version'', JInt 3),
      (''ms2rescore'', JObj [(''psm_file'', JStr ''data/psms.tsv''), (''processes'', JInt 2)])]"

definition cli_values :: dict where
  "cli_values = [(''psm_file'', JNull), (''output_path'', JStr ''out'')]"

definition null_version :: dict where
  "null_version = [(''version'', JNull)]"

definition maxquant_config :: dict where
  "maxquant_config =
     [(''general'', JObj [(''pipeline'', JStr ''MaxQuant''), (''run_percolator'', JBool False)])]"

section \<open>Auxiliary facts\<close>

subsection \<open>Reading and writing \<open>config[s][k]\<close>\<close>

lemma get2_set2:
  "set2 c s k v = Inr c' \<Longrightarrow> get2 c' s k' = (if k' = k then Inr v else get2 c s k')"
  by (auto simp: set2_def get2_def update_conv' split: option.splits json.splits)

lemma validate_spectrum_path_keeps:
  "validate_spectrum_path env fs c = Inr c' \<Longrightarrow> k \<noteq> ''spectrum_path'' \<Longrightarrow>
   get2 c' ''ms2rescore'' k = get2 c ''ms2rescore'' k"
  by (auto simp: validate_spectrum_path_def Let_def get2_set2 split: sum.splits if_splits)

lemma validate_output_path_keeps:
  "validate_output_path env fs idf c = (Inr c', fs') \<Longrightarrow> k \<noteq> ''output_path'' \<Longrightarrow>
   get2 c' ''ms2rescore'' k = get2 c ''ms2rescore'' k"
  by (auto simp: validate_output_path_def Let_def get2_set2
      split: sum.splits if_splits prod.splits option.splits)

lemma validate_filenames_keeps:
  assumes "validate_filenames env fs c = (Inr c', fs')"
    and "k \<noteq> ''psm_file''" "k \<noteq> ''spectrum_path''" "k \<noteq> ''output_path''"
  shows "get2 c' ''ms2rescore'' k = get2 c ''ms2rescore'' k"
  using assms
  by (auto simp: validate_filenames_def Let_def get2_set2 validate_spectrum_path_keeps
      validate_output_path_keeps split: sum.splits if_splits)

lemma validate_processes_keeps:
  "validate_processes env c = Inr c' \<Longrightarrow> k \<noteq> ''processes'' \<Longrightarrow>
   get2 c' ''ms2rescore'' k = get2 c ''ms2rescore'' k"
  by (auto simp: validate_processes_def get2_set2 split: option.splits sum.splits bool.splits)

lemma lowercase_section_keeps:
  "lowercase_section c s = Inr c' \<Longrightarrow> k \<noteq> s \<Longrightarrow>
   get2 c' ''ms2rescore'' k = get2 c ''ms2rescore'' k"
  by (auto simp: lowercase_section_def get2_set2 split: sum.splits json.splits)


text \<open>A run of \<open>parse_configurations\<close> that returns went through every step.\<close>

lemma parse_configurations_steps:
  assumes "resolve_cascade env fs configurations = Inr merged"
    and "parse_configurations env fs configurations = (Inr config, fs')"
  obtains c1 c2 c3 where
    "validate_filenames env fs merged = (Inr c1, fs')"
    "validate_processes env c1 = Inr c2"
    "lowercase_section c2 ''feature_generators'' = Inr c3"
    "lowercase_section c3 ''rescoring_engine'' = Inr config"
proof -
  from assms have "post_validate env fs merged = (Inr config, fs')"
    by (simp add: parse_configurations_def)
  then show ?thesis
    using that by (auto simp: post_validate_def split: prod.splits sum.splits)
qed

subsection \<open>The schema at the end of the cascade\<close>





subsection \<open>The loop over the sources\<close>

lemma add_configurations_append:
  "add_configurations env fs cc (xs @ ys) =
     (case add_configurations env fs cc xs of
        Inl e \<Rightarrow> Inl e
      | Inr cc' \<Rightarrow> add_configurations env fs cc' ys)"
  by (induction xs arbitrary: cc) (auto split: sum.splits)

lemma add_configurations_reach_unsupported:
  "is_unsupported c \<Longrightarrow> add_configurations env fs cc (c # post) = Inl (ValueError unknown_shape)"
  by (cases c) auto

lemma add_configurations_unsupported:
  "c \<in> set cs \<Longrightarrow> is_unsupported c \<Longrightarrow> \<exists>e. add_configurations env fs cc cs = Inl e"
proof (induction cs arbitrary: cc)
  case Nil
  then show ?case by simp
next
  case (Cons x xs)
  show ?case
  proof (cases "x = c")
    case True
    with Cons.prems show ?thesis
      by (simp add: add_configurations_reach_unsupported del: add_configurations.simps)
  next
    case False
    with Cons.prems have "c \<in> set xs" by simp
    from Cons.IH[OF this Cons.prems(2)] show ?thesis
      by (simp split: sum.splits)
  qed
qed

lemma add_path_unknown:
  "lower (path_suffix env p) \<noteq> ''.json'' \<Longrightarrow> lower (path_suffix env p) \<noteq> ''.toml'' \<Longrightarrow>
   add_path env fs cc p = Inl (MS2RescoreConfigurationError unknown_extension)"
  by (simp add: add_path_def)

subsection \<open>Lower case\<close>

lemma lower_char_same: "same_letter x y \<Longrightarrow> lower_char x = lower_char y"
proof -
  have up: "lower_char a = b \<and> lower_char b = b"
    if "is_upper a" "(of_char b :: nat) = of_char a + 32" for a b
  proof -
    from that have "\<not> is_upper b" by (simp add: is_upper_def)
    moreover from that have "char_of ((of_char a :: nat) + 32) = b"
      by (metis char_of_char)
    ultimately show ?thesis using that by (simp add: lower_char_def)
  qed
  assume "same_letter x y"
  then consider "x = y" | "is_upper x \<and> (of_char y :: nat) = of_char x + 32"
    | "is_upper y \<and> (of_char x :: nat) = of_char y + 32"
    by (auto simp: same_letter_def)
  then show ?thesis
  proof cases
    case 1 then show ?thesis by simp
  next
    case 2 with up[of x y] show ?thesis by simp
  next
    case 3 with up[of y x] show ?thesis by simp
  qed
qed

lemma eq_ignore_case_lower: "eq_ignore_case a b \<Longrightarrow> lower a = lower b"
  unfolding eq_ignore_case_def lower_def
  by (induction a b rule: list_all2_induct) (auto simp: lower_char_same)

lemma lower_json: "lower ''.json'' = ''.json''"
  by code_simp

lemma lower_toml: "lower ''.toml'' = ''.toml''"
  by code_simp

lemma lower_char_not_upper: "\<not> is_upper (lower_char c)"
  by (auto simp: lower_char_def is_upper_def)

lemma lower_no_upper: "c \<in> set (lower k) \<Longrightarrow> \<not> is_upper c"
  by (auto simp: lower_def lower_char_not_upper)

lemma map_of_fold_lower:
  "map_of (fold (\<lambda>(k, v) acc. AList.update (lower k) v acc) d acc) =
   map_of acc ++ map_of (rev (map (\<lambda>(k, v). (lower k, v)) d))"
proof (induction d arbitrary: acc)
  case Nil
  then show ?case by simp
next
  case (Cons x d)
  obtain k v where x: "x = (k, v)" by (cases x)
  show ?case
    by (rule ext) (simp add: x Cons.IH update_conv' map_add_def split: option.splits)
qed

lemma map_of_lower_keys:
  "map_of (lower_keys d) = map_of (rev (map (\<lambda>(k, v). (lower k, v)) d))"
  by (simp add: lower_keys_def map_of_fold_lower)

lemma keys_lower_keys: "fst ` set (lower_keys d) = lower ` fst ` set d"
proof -
  have "fst ` set (lower_keys d) = dom (map_of (lower_keys d))"
    by (simp add: dom_map_of_conv_image_fst)
  also have "\<dots> = fst ` set (rev (map (\<lambda>(k, v). (lower k, v)) d))"
    by (simp only: map_of_lower_keys dom_map_of_conv_image_fst)
  also have "\<dots> = lower ` fst ` set d"
    by (force simp: image_iff)
  finally show ?thesis .
qed

lemma lower_keys_last_wins:
  assumes "d = pre @ (k, v) # post" and "lower k \<notin> lower ` fst ` set post"
  shows "map_of (lower_keys d) (lower k) = Some v"
proof -
  let ?f = "\<lambda>(k, v). (lower k, v)"
  from assms(2) have "lower k \<notin> fst ` set (rev (map ?f post))"
    by (force simp: image_iff)
  then have "map_of (rev (map ?f post)) (lower k) = None"
    by (simp add: map_of_eq_None_iff)
  with assms(1) show ?thesis
    by (simp add: map_of_lower_keys map_add_def)
qed

lemma lowercase_section_result:
  "lowercase_section c s = Inr c' \<Longrightarrow>
   \<exists>m. get2 c ''ms2rescore'' s = Inr (JObj m) \<and> get2 c' ''ms2rescore'' s = Inr (JObj (lower_keys m))"
  by (auto simp: lowercase_section_def get2_set2 split: sum.splits json.splits)

subsection \<open>The pre-flight checks\<close>

lemma main_ms2pip_not_callable:
  assumes "get2 config ''general'' ''run_percolator'' = Inr rp"
    and "truthy rp \<longrightarrow> getstatus sh ''percolator -h'' = 0"
    and "getstatus sh ''ms2pip -h'' \<noteq> 0"
  shows "fst (main sh config) = SystemExit 0
       \<and> (\<forall>ev \<in> set (snd (main sh config)). \<forall>s. ev \<noteq> Stage s)"
  using assms by (auto simp: main_def check_ms2pip_def)

subsection \<open>The merge of the cascade\<close>

lemma silent_Cons:
  "silent ((k', x) # later) k \<longleftrightarrow> (k' = k \<longrightarrow> x = JNull) \<and> silent later k"
  by (simp add: silent_def)

lemma silent_in_Cons:
  "silent_in ((s', x) # later) s k \<longleftrightarrow>
     (s' = s \<longrightarrow> (case x of JNull \<Rightarrow> True | JObj m \<Rightarrow> silent m k | _ \<Rightarrow> False))
     \<and> silent_in later s k"
  by (simp add: silent_in_def)

lemma cascade_merge_silent:
  "silent later k \<Longrightarrow> map_of acc k = Some v \<Longrightarrow> v \<noteq> JNull \<Longrightarrow>
   map_of (cascade_merge False d acc later) k = Some v"
proof (induction later arbitrary: acc)
  case Nil
  then show ?case by simp
next
  case (Cons e later)
  obtain k' x where e: "e = (k', x)" by (cases e)
  from Cons.prems(1) have s: "k' = k \<longrightarrow> x = JNull" and rest: "silent later k"
    by (simp_all add: e silent_Cons)
  show ?case
    unfolding e cascade_merge.simps
    by (rule Cons.IH[OF rest _ Cons.prems(3)])
       (use s Cons.prems(2,3) in \<open>auto simp: update_conv' split: json.splits option.splits nat.splits\<close>)
qed

lemma cascade_merge_silent_in:
  "silent_in later s k \<Longrightarrow> get2 acc s k = Inr v \<Longrightarrow> v \<noteq> JNull \<Longrightarrow>
   get2 (cascade_merge False (Suc d) acc later) s k = Inr v"
proof (induction later arbitrary: acc)
  case Nil
  then show ?case by simp
next
  case (Cons e later)
  obtain s' x where e: "e = (s', x)" by (cases e)
  from Cons.prems(1) have
    s: "s' = s \<longrightarrow> (case x of JNull \<Rightarrow> True | JObj m \<Rightarrow> silent m k | _ \<Rightarrow> False)"
    and rest: "silent_in later s k"
    by (simp_all add: e silent_in_Cons)
  from Cons.prems(2) obtain am where am: "map_of acc s = Some (JObj am)" "map_of am k = Some v"
    by (auto simp: get2_def split: option.splits json.splits elim: getitem.elims)
  show ?case
    unfolding e cascade_merge.simps
    by (rule Cons.IH[OF rest _ Cons.prems(3)])
       (use s am Cons.prems(3) in \<open>auto simp: get2_def update_conv' cascade_merge_silent
          split: json.splits option.splits nat.splits\<close>)
qed

lemma fold_merge_silent:
  "\<forall>later \<in> set laters. silent later k \<Longrightarrow> map_of acc k = Some v \<Longrightarrow> v \<noteq> JNull \<Longrightarrow>
   map_of (fold (\<lambda>src acc. cascade_merge False d acc src) laters acc) k = Some v"
  by (induction laters arbitrary: acc) (simp_all add: cascade_merge_silent)

lemma fold_merge_silent_in:
  "\<forall>later \<in> set laters. silent_in later s k \<Longrightarrow> get2 acc s k = Inr v \<Longrightarrow> v \<noteq> JNull \<Longrightarrow>
   get2 (fold (\<lambda>src acc. cascade_merge False (Suc d) acc src) laters acc) s k = Inr v"
  by (induction laters arbitrary: acc) (simp_all add: cascade_merge_silent_in)

text \<open>
  A key that a source does not have is left as it was; a key that it has with a
  concrete value takes that value.
\<close>

lemma cascade_merge_absent:
  "k \<notin> fst ` set later \<Longrightarrow> map_of (cascade_merge nov d acc later) k = map_of acc k"
proof (induction later arbitrary: acc)
  case Nil
  then show ?case by simp
next
  case (Cons e later)
  obtain k' x where e: "e = (k', x)" by (cases e)
  from Cons.prems have ne: "k' \<noteq> k" and rest: "k \<notin> fst ` set later" by (auto simp: e)
  show ?case
    unfolding e cascade_merge.simps Cons.IH[OF rest]
    using ne by (auto simp: update_conv' split: json.splits option.splits nat.splits)
qed

lemma cascade_merge_sets_flat:
  "distinct (map fst em) \<Longrightarrow> map_of em k = Some v \<Longrightarrow> v \<noteq> JNull \<Longrightarrow>
   map_of (cascade_merge nov 0 am em) k = Some v"
proof (induction em arbitrary: am)
  case Nil
  then show ?case by simp
next
  case (Cons e em)
  obtain k' x where e: "e = (k', x)" by (cases e)
  show ?case
  proof (cases "k' = k")
    case True
    with Cons.prems have x: "x = v" and absent: "k \<notin> fst ` set em" by (auto simp: e)
    show ?thesis
      unfolding e cascade_merge.simps cascade_merge_absent[OF absent]
      using True x Cons.prems(3) by (auto simp: update_conv' split: json.splits option.splits)
  next
    case False
    with Cons.prems have "distinct (map fst em)" "map_of em k = Some v" by (auto simp: e)
    from Cons.IH[OF this Cons.prems(3)] show ?thesis
      unfolding e cascade_merge.simps .
  qed
qed

lemma cascade_merge_sets:
  "distinct (map fst src) \<Longrightarrow> map_of src s = Some (JObj em) \<Longrightarrow> distinct (map fst em) \<Longrightarrow>
   map_of em k = Some v \<Longrightarrow> v \<noteq> JNull \<Longrightarrow>
   get2 (cascade_merge nov (Suc 0) acc src) s k = Inr v"
proof (induction src arbitrary: acc)
  case Nil
  then show ?case by simp
next
  case (Cons e src)
  obtain s' x where e: "e = (s', x)" by (cases e)
  show ?case
  proof (cases "s' = s")
    case True
    with Cons.prems have x: "x = JObj em" and absent: "s \<notin> fst ` set src" by (auto simp: e)
    have "get2 (cascade_merge nov (Suc 0) acc ((s', x) # src)) s k =
      getitem (the (map_of (cascade_merge nov (Suc 0) acc ((s', x) # src)) s)) k \<and>
      map_of (cascade_merge nov (Suc 0) acc ((s', x) # src)) s \<noteq> None"
      unfolding cascade_merge.simps cascade_merge_absent[OF absent] get2_def
      using True x by (auto simp: update_conv' split: json.splits option.splits)
    moreover have "getitem (the (map_of (cascade_merge nov (Suc 0) acc ((s', x) # src)) s)) k = Inr v"
      unfolding cascade_merge.simps cascade_merge_absent[OF absent]
      using True x Cons.prems(3,4,5)
      by (auto simp: update_conv' cascade_merge_sets_flat split: json.splits option.splits)
    ultimately show ?thesis by (simp add: e)
  next
    case False
    with Cons.prems have "distinct (map fst src)" "map_of src s = Some (JObj em)" by (auto simp: e)
    from Cons.IH[OF this Cons.prems(3,4,5)] show ?thesis
      unfolding e cascade_merge.simps .
  qed
qed


lemma cascade_merge_sets_top:
  "distinct (map fst src) \<Longrightarrow> map_of src k = Some v \<Longrightarrow> v \<noteq> JNull \<Longrightarrow> \<not> is_mapping v \<Longrightarrow>
   map_of (cascade_merge nov d acc src) k = Some v"
proof (induction src arbitrary: acc)
  case Nil
  then show ?case by simp
next
  case (Cons e src)
  obtain k' x where e: "e = (k', x)" by (cases e)
  show ?case
  proof (cases "k' = k")
    case True
    with Cons.prems have x: "x = v" and absent: "k \<notin> fst ` set src" by (auto simp: e)
    show ?thesis
      unfolding e cascade_merge.simps cascade_merge_absent[OF absent]
      using True x Cons.prems(3,4) by (auto simp: update_conv' split: json.splits option.splits)
  next
    case False
    with Cons.prems have "distinct (map fst src)" "map_of src k = Some v" by (auto simp: e)
    from Cons.IH[OF this Cons.prems(3,4)] show ?thesis
      unfolding e cascade_merge.simps .
  qed
qed

lemma add_configurations_flags:
  "add_configurations env fs cc cs = Inr cc' \<Longrightarrow>
   none_overrides_value cc' = none_overrides_value cc
   \<and> max_recursion_depth cc' = max_recursion_depth cc"
proof (induction cs arbitrary: cc)
  case Nil
  then show ?case by simp
next
  case (Cons c cs)
  from Cons.prems obtain cc1 where
    step: "(case c of
           PDict d \<Rightarrow> Inr (add_dict cc d)
         | PStr p \<Rightarrow> add_path env fs cc p
         | PPath p \<Rightarrow> add_path env fs cc p
         | PNamespace ns \<Rightarrow> Inr (add_namespace cc ns ''ms2rescore'')
         | _ \<Rightarrow> Inl (ValueError unknown_shape)) = Inr cc1"
    and rest: "add_configurations env fs cc1 cs = Inr cc'"
    by (auto split: sum.splits)
  from step have "none_overrides_value cc1 = none_overrides_value cc
      \<and> max_recursion_depth cc1 = max_recursion_depth cc"
    by (auto simp: add_dict_def add_json_def add_namespace_def add_path_def
        split: pyval.splits if_splits sum.splits)
  with Cons.IH[OF rest] show ?case by simp
qed

lemma merge_all_split:
  "merge_all nov d (pre @ earlier # laters) =
     fold (\<lambda>src acc. cascade_merge nov d acc src) laters
       (if pre = [] then earlier else cascade_merge nov d (merge_all nov d pre) earlier)"
  by (cases pre) (simp_all add: merge_all_def)

section \<open>The resolved number of processes\<close>



section \<open>Inputs of an unsupported shape\<close>

text \<open>
  Claim C2, as the code has it. When an element of the list is neither a mapping, nor a
  string or \<open>Path\<close>, nor a \<open>Namespace\<close>, \<open>parse_configurations\<close> fails and leaves the
  file system as it was. The error is the \<open>ValueError\<close> of the last branch of the loop,
  not a configuration error, whenever the loop gets through the elements before it; an
  earlier element that fails raises its own error first.
\<close>

theorem unsupported_shape_fails:
  assumes "is_unsupported c" and "cs = pre @ c # post"
  shows "(\<exists>e. parse_configurations env fs (PList cs) = (Inl e, fs))
       \<and> (\<forall>cc. add_configurations env fs (new_cascade env) pre = Inr cc \<longrightarrow>
             parse_configurations env fs (PList cs) = (Inl (ValueError unknown_shape), fs))"
proof -
  from assms have "c \<in> set cs" by simp
  from add_configurations_unsupported[OF this assms(1), of env fs "new_cascade env"]
  obtain e where "add_configurations env fs (new_cascade env) cs = Inl e" by blast
  then have a: "\<exists>e. parse_configurations env fs (PList cs) = (Inl e, fs)"
    by (simp add: parse_configurations_def resolve_cascade_def)
  have b: "parse_configurations env fs (PList cs) = (Inl (ValueError unknown_shape), fs)"
    if "add_configurations env fs (new_cascade env) pre = Inr cc" for cc
    using that assms
    by (simp add: parse_configurations_def resolve_cascade_def add_configurations_append
        add_configurations_reach_unsupported del: add_configurations.simps)
  from a b show ?thesis by blast
qed

theorem unsupported_shape_fails_witness:
  "is_unsupported POther
   \<and> add_configurations toy_host toy_disk (new_cascade toy_host) [PStr ''conf.JSON''] =
       Inr (add_json (new_cascade toy_host) ''conf.JSON'')
   \<and> parse_configurations toy_host toy_disk
        (PList [PStr ''conf.JSON'', POther, PStr ''conf.yaml'']) =
       (Inl (ValueError unknown_shape), toy_disk)"
proof -
  have 1: "is_unsupported POther" by simp
  have 2: "add_configurations toy_host toy_disk (new_cascade toy_host) [PStr ''conf.JSON''] =
       Inr (add_json (new_cascade toy_host) ''conf.JSON'')" by code_simp
  from unsupported_shape_fails[OF 1, of "[PStr ''conf.JSON'', POther, PStr ''conf.yaml'']"
      "[PStr ''conf.JSON'']" "[PStr ''conf.yaml'']" toy_host toy_disk] 1 2
  show ?thesis by simp
qed

text \<open>A list holding one value of no supported shape: the error is a \<open>ValueError\<close>.\<close>

theorem unsupported_shape_counterexample:
  "parse_configurations toy_host toy_disk (PList [POther]) =
     (Inl (ValueError unknown_shape), toy_disk)
   \<and> \<not> is_configuration_error (ValueError unknown_shape)"
  by code_simp

section \<open>A nonexistent \<open>psm_file\<close>\<close>

text \<open>
  Claim C4. When the \<open>psm_file\<close> of the merged configuration is a non-empty string that
  names no file, \<open>_validate_filenames\<close> and with it \<open>parse_configurations\<close> fail with
  \<open>FileNotFoundError\<close> and return the file system they were given. This holds for every
  host, whatever its \<open>mkdir\<close> does to the file system: the creation of the output
  directory is not reached.
\<close>

theorem missing_psm_file_not_found:
  assumes "resolve_cascade env fs configurations = Inr merged"
    and "get2 merged ''ms2rescore'' ''psm_file'' = Inr (JStr p)" and "p \<noteq> []"
    and "\<not> is_file env fs (path_str env p)"
  shows "validate_filenames env fs merged = (Inl (FileNotFoundError (path_str env p)), fs)
       \<and> parse_configurations env fs configurations =
           (Inl (FileNotFoundError (path_str env p)), fs)"
  using assms
  by (simp add: parse_configurations_def post_validate_def validate_filenames_def)

text \<open>
  On the small host the requested output directory \<open>out\<close> does not exist and \<open>mkdir\<close>
  would add it; the run with a missing \<open>psm_file\<close> returns the disk without it.
\<close>

theorem missing_psm_file_not_found_witness:
  "get2 (projr (resolve_cascade toy_host toy_disk missing_psm)) ''ms2rescore'' ''psm_file'' =
     Inr (JStr ''data/none.tsv'')
   \<and> \<not> is_file toy_host toy_disk (path_str toy_host ''data/none.tsv'')
   \<and> snd (mkdir_parents toy_host toy_disk ''out'') \<noteq> toy_disk
   \<and> parse_configurations toy_host toy_disk missing_psm =
       (Inl (FileNotFoundError ''data/none.tsv''), toy_disk)"
proof -
  have 1: "resolve_cascade toy_host toy_disk missing_psm =
      Inr (projr (resolve_cascade toy_host toy_disk missing_psm))" by code_simp
  have 2: "get2 (projr (resolve_cascade toy_host toy_disk missing_psm)) ''ms2rescore'' ''psm_file'' =
      Inr (JStr ''data/none.tsv'')" by code_simp
  have 3: "''data/none.tsv'' \<noteq> []" by simp
  have 4: "\<not> is_file toy_host toy_disk (path_str toy_host ''data/none.tsv'')" by code_simp
  have 5: "snd (mkdir_parents toy_host toy_disk ''out'') \<noteq> toy_disk" by code_simp
  have 6: "path_str toy_host ''data/none.tsv'' = ''data/none.tsv''" by (simp add: toy_host_def)
  from missing_psm_file_not_found[OF 1 2 3 4] 2 4 5 6 show ?thesis by simp
qed

section \<open>An unknown file extension\<close>

text \<open>
  Claim C5, as the code has it. A string or \<open>Path\<close> whose lower-cased suffix is neither
  \<open>.json\<close> nor \<open>.toml\<close> makes \<open>parse_configurations\<close> fail with a configuration error,
  whether it is passed alone or in a list whose earlier elements the loop gets through.
  The message is one fixed text that names the two supported extensions; it does not
  name the extension that was met. The failure comes out of the loop over the sources:
  nothing is merged, \<open>_validate_filenames\<close> does not run and the file system is returned
  as it was.
\<close>

theorem unknown_extension_fails:
  assumes c: "c = PStr p \<or> c = PPath p"
    and ext: "lower (path_suffix env p) \<noteq> ''.json''" "lower (path_suffix env p) \<noteq> ''.toml''"
    and pre: "add_configurations env fs (new_cascade env) pre = Inr cc"
  shows "resolve_cascade env fs (PList (pre @ c # post)) =
           Inl (MS2RescoreConfigurationError unknown_extension)
       \<and> parse_configurations env fs (PList (pre @ c # post)) =
           (Inl (MS2RescoreConfigurationError unknown_extension), fs)
       \<and> parse_configurations env fs c =
           (Inl (MS2RescoreConfigurationError unknown_extension), fs)"
proof -
  from c ext have step: "add_configurations env fs cc' (c # post') =
      Inl (MS2RescoreConfigurationError unknown_extension)" for cc' post'
    by (auto simp: add_path_unknown)
  with pre have "resolve_cascade env fs (PList (pre @ c # post)) =
      Inl (MS2RescoreConfigurationError unknown_extension)"
    by (simp add: resolve_cascade_def add_configurations_append)
  moreover from c step[of "new_cascade env" "[]"] have "resolve_cascade env fs c =
      Inl (MS2RescoreConfigurationError unknown_extension)"
    by (auto simp: resolve_cascade_def)
  ultimately show ?thesis by (simp add: parse_configurations_def)
qed

theorem unknown_extension_fails_witness:
  "lower (path_suffix toy_host ''conf.yaml'') = ''.yaml''
   \<and> add_configurations toy_host toy_disk (new_cascade toy_host) [PStr ''conf.JSON''] =
       Inr (add_json (new_cascade toy_host) ''conf.JSON'')
   \<and> parse_configurations toy_host toy_disk
        (PList [PStr ''conf.JSON'', PPath ''conf.yaml'', POther]) =
       (Inl (MS2RescoreConfigurationError unknown_extension), toy_disk)"
proof -
  have 1: "lower (path_suffix toy_host ''conf.yaml'') = ''.yaml''" by code_simp
  have 2: "add_configurations toy_host toy_disk (new_cascade toy_host) [PStr ''conf.JSON''] =
       Inr (add_json (new_cascade toy_host) ''conf.JSON'')" by code_simp
  have 3: "lower (path_suffix toy_host ''conf.yaml'') \<noteq> ''.json''"
          "lower (path_suffix toy_host ''conf.yaml'') \<noteq> ''.toml''" using 1 by simp_all
  from unknown_extension_fails[of "PPath ''conf.yaml''" "''conf.yaml''" toy_host,
      OF _ 3 2, of "[POther]"] 1 2
  show ?thesis by simp
qed

text \<open>
  For \<open>conf.yaml\<close> the suffix is \<open>.yaml\<close>, and the message of the error does not
  contain \<open>yaml\<close>.
\<close>

theorem unknown_extension_counterexample:
  "parse_configurations toy_host toy_disk (PStr ''conf.yaml'') =
     (Inl (MS2RescoreConfigurationError unknown_extension), toy_disk)
   \<and> path_suffix toy_host ''conf.yaml'' = ''.yaml''
   \<and> \<not> sublist ''yaml'' unknown_extension"
  by code_simp

section \<open>The empty list of sources\<close>




section \<open>One source passed without a list\<close>

text \<open>
  Claim C10. A value that is not a list is wrapped into a list of one element before
  anything else happens: on the same host and file system, \<open>parse_configurations\<close> gives
  the same result and the same file system for \<open>x\<close> and for \<open>[x]\<close>.
\<close>

theorem single_source_as_list:
  "\<not> isinstance_list x \<Longrightarrow>
   parse_configurations env fs x = parse_configurations env fs (PList [x])"
  by (cases x) (simp_all add: parse_configurations_def resolve_cascade_def)

theorem single_source_as_list_witness:
  "\<not> isinstance_list (PStr ''conf.JSON'')
   \<and> parse_configurations toy_host toy_disk (PStr ''conf.JSON'') =
       parse_configurations toy_host toy_disk (PList [PStr ''conf.JSON''])"
  using single_source_as_list[of "PStr ''conf.JSON''" toy_host toy_disk] by simp

section \<open>Lower-case section keys\<close>

text \<open>
  Claim C8, as the code has it. When \<open>parse_configurations\<close> returns, the feature-generator
  section and the rescoring-engine section are the sections of the merged configuration
  with every key lower-cased: no key has an upper-case letter, the keys are exactly the
  lower-cased keys of the merged section, and the options of a key are carried over
  unchanged unless a later key of the same section has the same lower-case form, in
  which case the options of the last such key are kept.
\<close>

theorem section_keys_lowercased:
  assumes merged: "resolve_cascade env fs configurations = Inr merged"
    and ret: "parse_configurations env fs configurations = (Inr config, fs')"
    and sect: "sect = ''feature_generators'' \<or> sect = ''rescoring_engine''"
  shows "\<exists>m. get2 merged ''ms2rescore'' sect = Inr (JObj m)
           \<and> get2 config ''ms2rescore'' sect = Inr (JObj (lower_keys m))
           \<and> (\<forall>k \<in> fst ` set (lower_keys m). \<forall>c \<in> set k. \<not> is_upper c)
           \<and> fst ` set (lower_keys m) = lower ` fst ` set m
           \<and> (\<forall>pre k v post. m = pre @ (k, v) # post \<and> lower k \<notin> lower ` fst ` set post \<longrightarrow>
                 map_of (lower_keys m) (lower k) = Some v)"
proof -
  from merged ret obtain c1 c2 c3 where
    c1: "validate_filenames env fs merged = (Inr c1, fs')" and
    c2: "validate_processes env c1 = Inr c2" and
    c3: "lowercase_section c2 ''feature_generators'' = Inr c3" and
    c4: "lowercase_section c3 ''rescoring_engine'' = Inr config"
    by (rule parse_configurations_steps)
  from sect validate_filenames_keeps[OF c1, of sect] validate_processes_keeps[OF c2, of sect]
  have before: "get2 c2 ''ms2rescore'' sect = get2 merged ''ms2rescore'' sect" by auto
  have "\<exists>m. get2 merged ''ms2rescore'' sect = Inr (JObj m)
           \<and> get2 config ''ms2rescore'' sect = Inr (JObj (lower_keys m))"
  proof (cases "sect = ''feature_generators''")
    case True
    from lowercase_section_result[OF c3] obtain m where
      "get2 c2 ''ms2rescore'' ''feature_generators'' = Inr (JObj m)"
      "get2 c3 ''ms2rescore'' ''feature_generators'' = Inr (JObj (lower_keys m))" by blast
    with lowercase_section_keeps[OF c4, of "''feature_generators''"] before True
    have "get2 merged ''ms2rescore'' sect = Inr (JObj m)
        \<and> get2 config ''ms2rescore'' sect = Inr (JObj (lower_keys m))" by simp
    then show ?thesis by blast
  next
    case False
    with sect have re: "sect = ''rescoring_engine''" by simp
    from lowercase_section_result[OF c4] obtain m where
      "get2 c3 ''ms2rescore'' ''rescoring_engine'' = Inr (JObj m)"
      "get2 config ''ms2rescore'' ''rescoring_engine'' = Inr (JObj (lower_keys m))" by blast
    with lowercase_section_keeps[OF c3, of "''rescoring_engine''"] before re
    have "get2 merged ''ms2rescore'' sect = Inr (JObj m)
        \<and> get2 config ''ms2rescore'' sect = Inr (JObj (lower_keys m))" by simp
    then show ?thesis by blast
  qed
  then obtain m where m: "get2 merged ''ms2rescore'' sect = Inr (JObj m)"
    "get2 config ''ms2rescore'' sect = Inr (JObj (lower_keys m))" by blast
  have "\<forall>k \<in> fst ` set (lower_keys m). \<forall>c \<in> set k. \<not> is_upper c"
    by (auto simp only: keys_lower_keys dest: lower_no_upper)
  with m show ?thesis
    using keys_lower_keys[of m] lower_keys_last_wins[of m] by blast
qed

text \<open>On the small host \<open>MS2PIP\<close> becomes \<open>ms2pip\<close> and keeps its options.\<close>

theorem section_keys_lowercased_witness:
  "get2 (projr (resolve_cascade toy_host toy_disk upper_casing)) ''ms2rescore'' ''feature_generators'' =
     Inr (JObj [(''MS2PIP'', JObj [(''model'', JStr ''HCD'')])])
   \<and> get2 (projr (fst (parse_configurations toy_host toy_disk upper_casing)))
        ''ms2rescore'' ''feature_generators'' =
       Inr (JObj [(''ms2pip'', JObj [(''model'', JStr ''HCD'')])])"
proof -
  have 1: "resolve_cascade toy_host toy_disk upper_casing =
      Inr (projr (resolve_cascade toy_host toy_disk upper_casing))" by code_simp
  have 2: "parse_configurations toy_host toy_disk upper_casing =
      (Inr (projr (fst (parse_configurations toy_host toy_disk upper_casing))), toy_disk)"
    by code_simp
  have 3: "get2 (projr (resolve_cascade toy_host toy_disk upper_casing)) ''ms2rescore'' ''feature_generators'' =
     Inr (JObj [(''MS2PIP'', JObj [(''model'', JStr ''HCD'')])])" by code_simp
  have 4: "lower_keys [(''MS2PIP'', JObj [(''model'', JStr ''HCD'')])] =
     [(''ms2pip'', JObj [(''model'', JStr ''HCD'')])]" by code_simp
  from section_keys_lowercased[OF 1 2, of "''feature_generators''"] 3 4
  show ?thesis by auto
qed

text \<open>
  Two keys that differ in case only end as one key: the options of \<open>MS2PIP\<close> are not
  carried over, the resolved section holds those of \<open>ms2pip\<close>.
\<close>

theorem section_keys_collision_counterexample:
  "get2 (projr (resolve_cascade toy_host toy_disk two_casings)) ''ms2rescore'' ''feature_generators'' =
     Inr (JObj [(''MS2PIP'', JObj [(''model'', JStr ''HCD'')]),
                (''ms2pip'', JObj [(''model'', JStr ''CID'')])])
   \<and> get2 (projr (fst (parse_configurations toy_host toy_disk two_casings)))
        ''ms2rescore'' ''feature_generators'' =
       Inr (JObj [(''ms2pip'', JObj [(''model'', JStr ''CID'')])])"
  by code_simp

section \<open>Extensions in any letter case\<close>

text \<open>
  Claim C9. A string or \<open>Path\<close> whose suffix equals \<open>.json\<close> up to letter case is added
  to the cascade as a JSON source, and one whose suffix equals \<open>.toml\<close> up to letter
  case is read with the TOML reader and added as a mapping (or fails with the reader's
  error); neither is rejected for its extension.
\<close>

theorem extension_dispatch_ignores_case:
  assumes "c = PStr p \<or> c = PPath p"
  shows "(eq_ignore_case (path_suffix env p) ''.json'' \<longrightarrow>
            add_configurations env fs cc (c # rest) =
              add_configurations env fs (add_json cc p) rest)
       \<and> (eq_ignore_case (path_suffix env p) ''.toml'' \<longrightarrow>
            add_configurations env fs cc (c # rest) =
              (case load_toml env fs p of
                 Inl e \<Rightarrow> Inl e
               | Inr d \<Rightarrow> add_configurations env fs (add_dict cc d) rest))"
proof -
  have j: "add_path env fs cc p = Inr (add_json cc p)"
    if "eq_ignore_case (path_suffix env p) ''.json''"
    using eq_ignore_case_lower[OF that] by (simp add: add_path_def lower_json)
  have t: "add_path env fs cc p =
      (case load_toml env fs p of Inl e \<Rightarrow> Inl e | Inr d \<Rightarrow> Inr (add_dict cc d))"
    if "eq_ignore_case (path_suffix env p) ''.toml''"
    using eq_ignore_case_lower[OF that] by (simp add: add_path_def lower_toml)
  from assms j t show ?thesis by (auto split: sum.splits)
qed

theorem extension_dispatch_ignores_case_witness:
  "eq_ignore_case (path_suffix toy_host ''conf.JSON'') ''.json''
   \<and> eq_ignore_case (path_suffix toy_host ''conf.Toml'') ''.toml''
   \<and> add_configurations toy_host toy_disk (new_cascade toy_host) [PStr ''conf.JSON''] =
       Inr (add_json (new_cascade toy_host) ''conf.JSON'')
   \<and> add_configurations toy_host toy_disk (new_cascade toy_host) [PPath ''conf.Toml''] =
       Inr (add_dict (new_cascade toy_host) [(''ms2rescore'', JObj [(''processes'', JInt 2)])])"
proof -
  have 1: "eq_ignore_case (path_suffix toy_host ''conf.JSON'') ''.json''" by code_simp
  have 2: "eq_ignore_case (path_suffix toy_host ''conf.Toml'') ''.toml''" by code_simp
  have 3: "load_toml toy_host toy_disk ''conf.Toml'' =
      Inr [(''ms2rescore'', JObj [(''processes'', JInt 2)])]"
    by code_simp
  from extension_dispatch_ignores_case[of "PStr ''conf.JSON''" "''conf.JSON''" toy_host
         toy_disk "new_cascade toy_host" "[]"]
       extension_dispatch_ignores_case[of "PPath ''conf.Toml''" "''conf.Toml''" toy_host
         toy_disk "new_cascade toy_host" "[]"]
       1 2 3
  show ?thesis by simp
qed

section \<open>The spectrum predictor is not callable\<close>

text \<open>
  Claim C3, on the code. With \<open>run_percolator\<close> off and \<open>ms2pip -h\<close> ending with status
  127, \<open>main\<close> stops after the probe and before any stage, but through \<open>exit(0)\<close>: the
  exit code of the process is zero, where the claim asks for a non-zero one.
\<close>

theorem ms2pip_missing_exits_zero:
  "main no_ms2pip maxquant_config = (SystemExit 0, [Probe ''ms2pip -h''])"
  by code_simp

section \<open>A null in a later source\<close>

text \<open>
  Claim C6. Let the sources of the cascade that \<open>parse_configurations\<close> builds load to
  the mappings \<open>pre @ earlier # laters\<close>, and let the cascade resolve to \<open>config\<close>. A
  concrete value that \<open>earlier\<close> gives to a top-level key, or to a key of a section,
  is the resolved value whenever every later source has a null value for the key or no
  value at all: a null never overwrites it. A section is a mapping below the top level,
  the depth down to which the cascade merges field by field.
\<close>

theorem null_does_not_override:
  assumes loop: "add_configurations env fs (new_cascade env) (as_list configurations) = Inr cc"
    and docs: "load_all env fs (sources cc) = Inr (pre @ earlier # laters)"
    and res: "resolve_cascade env fs configurations = Inr config"
    and dist: "distinct (map fst earlier)"
  shows "(map_of earlier t = Some u \<and> u \<noteq> JNull \<and> \<not> is_mapping u
            \<and> (\<forall>later \<in> set laters. silent later t)
          \<longrightarrow> map_of config t = Some u)
       \<and> (map_of earlier s = Some (JObj em) \<and> distinct (map fst em)
            \<and> map_of em k = Some v \<and> v \<noteq> JNull
            \<and> (\<forall>later \<in> set laters. silent_in later s k)
          \<longrightarrow> get2 config s k = Inr v)"
proof -
  let ?f = "\<lambda>src acc. cascade_merge False (Suc 0) acc src"
  let ?acc = "if pre = [] then earlier
              else cascade_merge False (Suc 0) (merge_all False (Suc 0) pre) earlier"
  from add_configurations_flags[OF loop]
  have flags: "none_overrides_value cc = False" "max_recursion_depth cc = Suc 0"
    by (simp_all add: new_cascade_def add_dict_def)
  from res loop have "cascade_parse env fs cc = Inr config"
    by (simp add: resolve_cascade_def)
  with docs flags have "config = merge_all False (Suc 0) (pre @ earlier # laters)"
    by (auto simp: cascade_parse_def Let_def split: option.splits)
  then have config: "config = fold ?f laters ?acc"
    by (simp only: merge_all_split)
  have top: "map_of config t = Some u"
    if "map_of earlier t = Some u" "u \<noteq> JNull" "\<not> is_mapping u"
       "\<forall>later \<in> set laters. silent later t"
  proof -
    from that dist have "map_of ?acc t = Some u"
      by (simp add: cascade_merge_sets_top)
    from fold_merge_silent[OF that(4) this that(2)] show ?thesis
      by (simp only: config)
  qed
  have sec: "get2 config s k = Inr v"
    if "map_of earlier s = Some (JObj em)" "distinct (map fst em)" "map_of em k = Some v"
       "v \<noteq> JNull" "\<forall>later \<in> set laters. silent_in later s k"
  proof -
    from that dist have "get2 ?acc s k = Inr v"
      by (simp add: cascade_merge_sets) (simp add: get2_def)
    from fold_merge_silent_in[OF that(5) this that(4)] show ?thesis
      by (simp only: config)
  qed
  from top sec show ?thesis by blast
qed

text \<open>
  On a host with an open schema: a file-based source sets \<open>version\<close> and \<open>psm_file\<close>,
  the argument bundle that follows has a null \<open>psm_file\<close> and the last source a null
  \<open>version\<close>; both values of the file-based source are in the result.
\<close>

theorem null_does_not_override_witness:
  "load_all open_host toy_disk
     (sources (projr (add_configurations open_host toy_disk (new_cascade open_host)
        [PDict file_values, PNamespace cli_values, PDict null_version]))) =
     Inr ([toy_default] @ file_values # [[(''ms2rescore'', JObj cli_values)], null_version])
   \<and> silent [(''ms2rescore'', JObj cli_values)] ''version'' \<and> silent null_version ''version''
   \<and> silent_in [(''ms2rescore'', JObj cli_values)] ''ms2rescore'' ''psm_file''
   \<and> silent_in null_version ''ms2rescore'' ''psm_file''
   \<and> map_of (projr (resolve_cascade open_host toy_disk
        (PList [PDict file_values, PNamespace cli_values, PDict null_version]))) ''version'' =
       Some (JInt 3)
   \<and> get2 (projr (resolve_cascade open_host toy_disk
        (PList [PDict file_values, PNamespace cli_values, PDict null_version])))
        ''ms2rescore'' ''psm_file'' = Inr (JStr ''data/psms.tsv'')"
proof -
  let ?cs = "[PDict file_values, PNamespace cli_values, PDict null_version]"
  let ?cc = "projr (add_configurations open_host toy_disk (new_cascade open_host) ?cs)"
  let ?em = "[(''psm_file'', JStr ''data/psms.tsv''), (''processes'', JInt 2)]"
  have 1: "add_configurations open_host toy_disk (new_cascade open_host) (as_list (PList ?cs)) =
      Inr ?cc" by code_simp
  have 2: "load_all open_host toy_disk (sources ?cc) =
      Inr ([toy_default] @ file_values # [[(''ms2rescore'', JObj cli_values)], null_version])"
    by code_simp
  have 3: "resolve_cascade open_host toy_disk (PList ?cs) =
      Inr (projr (resolve_cascade open_host toy_disk (PList ?cs)))" by code_simp
  have 4: "distinct (map fst file_values)" by code_simp
  have 5: "map_of file_values ''version'' = Some (JInt 3)" "JInt 3 \<noteq> JNull"
    "\<not> is_mapping (JInt 3)" by code_simp+
  have 6: "silent [(''ms2rescore'', JObj cli_values)] ''version''" "silent null_version ''version''"
    by code_simp+
  have 7: "map_of file_values ''ms2rescore'' = Some (JObj ?em)" "distinct (map fst ?em)"
    "map_of ?em ''psm_file'' = Some (JStr ''data/psms.tsv'')" "JStr ''data/psms.tsv'' \<noteq> JNull"
    by code_simp+
  have 8: "silent_in [(''ms2rescore'', JObj cli_values)] ''ms2rescore'' ''psm_file''"
    "silent_in null_version ''ms2rescore'' ''psm_file''" by code_simp+
  from null_does_not_override[OF 1 2 3 4, of "''version''" "JInt 3" "''ms2rescore''" ?em
      "''psm_file''" "JStr ''data/psms.tsv''"] 2 5 6 7 8
  show ?thesis by simp
qed

end
